theory Spec2Isabelle
  imports Main "HOL-Library.Word" "HOL-Library.Sublist" "HOL-Library.Char_ord"
    "HOL-Library.List_Lexorder"
begin

section \<open>Cluster bootstrap: the Joiner and the resolution of remote nodes\<close>

text \<open>
  The development embeds \<^verbatim>\<open>cluster/bootstrap/joiner.go\<close> (the type \<^verbatim>\<open>Joiner\<close> and its
  method \<^verbatim>\<open>Do\<close>) and the reader double of \<^verbatim>\<open>cluster/service_test.go\<close>.

  A Go \<^verbatim>\<open>map[string]string\<close> is an association list holding the entries in the order in
  which \<^verbatim>\<open>range\<close> yields them in the run at hand. Go leaves that order open; every theorem
  below holds for every list, hence for every order.
\<close>

subsection \<open>Wire payloads, errors and contexts\<close>

text \<open>\<^verbatim>\<open>cmd.JoinPeerRequest{Id, Address, Voter}\<close>, as \<^verbatim>\<open>Do\<close> fills it.\<close>

record JoinPeerRequest =
  Id :: string
  Address :: string
  Voter :: bool

text \<open>\<^verbatim>\<open>cmd.JoinPeerResponse\<close>; \<^verbatim>\<open>Do\<close> reads its leader only. A \<^verbatim>\<open>*cmd.JoinPeerResponse\<close>
  is a \<open>JoinPeerResponse option\<close>, \<open>None\<close> the nil pointer.\<close>

record JoinPeerResponse =
  Leader :: string

text \<open>
  Modelled from the spec: the getter \<^verbatim>\<open>(*JoinPeerResponse).GetLeader\<close> belongs to the
  generated package \<^verbatim>\<open>cluster/proto/api\<close>, which is not among the sources. The response
  carries an optional leader address that may be empty; an absent response has none, so the
  getter reads it as the empty string.
\<close>

definition GetLeader :: "JoinPeerResponse option \<Rightarrow> string" where
  "GetLeader resp = (case resp of None \<Rightarrow> [] | Some r \<Rightarrow> Leader r)"

text \<open>\<^verbatim>\<open>codes.Code\<close> of gRPC is a \<^verbatim>\<open>uint32\<close>; \<^verbatim>\<open>codes.ResourceExhausted\<close> is 8.\<close>

type_synonym Code = "32 word"

definition ResourceExhausted :: Code where
  "ResourceExhausted = 8"

text \<open>
  What \<^verbatim>\<open>Do\<close> observes of a non-nil error returned by \<^verbatim>\<open>Join\<close>: the code of
  \<^verbatim>\<open>status.Convert(err)\<close> and the text of \<^verbatim>\<open>err.Error()\<close>, which \<^verbatim>\<open>%v\<close> prints.
\<close>

record join_error =
  code :: Code
  text_of :: string

text \<open>The two values \<^verbatim>\<open>ctx.Err()\<close> can have once \<^verbatim>\<open>ctx.Done()\<close> is closed.\<close>

datatype ctx_error = ContextCanceled | ContextDeadlineExceeded

text \<open>The errors \<^verbatim>\<open>Do\<close> returns: \<^verbatim>\<open>ctx.Err()\<close>, or a fresh error made by \<^verbatim>\<open>fmt.Errorf\<close>.\<close>

datatype do_error = CtxErr ctx_error | Errorf string

text \<open>
  A context is the caller's, or the one \<^verbatim>\<open>span.Context()\<close> derives from it for the span
  started with the given operation name.
\<close>

datatype 'c Context = Ctx 'c | SpanContext "'c Context" string

subsection \<open>Formatting\<close>

text \<open>\<^verbatim>\<open>strings.Join(elems, sep)\<close>.\<close>

fun strings_Join :: "string list \<Rightarrow> string \<Rightarrow> string" where
  "strings_Join [] sep = []"
| "strings_Join [x] sep = x"
| "strings_Join (x # y # ys) sep = x @ sep @ strings_Join (y # ys) sep"

text \<open>\<^verbatim>\<open>%v\<close> of a \<^verbatim>\<open>map[string]string\<close>: \<^verbatim>\<open>map[k1:v1 k2:v2]\<close>, the keys in sorted order.\<close>

definition fmt_map :: "(string \<times> string) list \<Rightarrow> string" where
  "fmt_map m = ''map['' @ strings_Join (map (\<lambda>(k, v). k @ '':'' @ v) (sort_key fst m)) '' '' @ '']''"

text \<open>\<^verbatim>\<open>fmt.Sprintf("leader(%s): %v", leader, err)\<close>\<close>

definition leader_failure :: "string \<Rightarrow> join_error \<Rightarrow> string" where
  "leader_failure leader e = ''leader('' @ leader @ ''): '' @ text_of e"

text \<open>\<^verbatim>\<open>fmt.Sprintf("%s(%s): %v", name, addr, err)\<close>\<close>

definition candidate_failure :: "string \<Rightarrow> string \<Rightarrow> join_error \<Rightarrow> string" where
  "candidate_failure name addr e = name @ ''('' @ addr @ ''): '' @ text_of e"

subsection \<open>The Joiner\<close>

text \<open>
  \<^verbatim>\<open>PeerJoiner.Join(ctx, addr, req)\<close> is an effect on the world outside the process: it
  takes the world, the context, the address and the request, and returns the response
  pointer, the error (\<open>None\<close> for nil) and the world after the call.
\<close>

type_synonym ('w, 'c) PeerJoiner =
  "'w \<Rightarrow> 'c Context \<Rightarrow> string \<Rightarrow> JoinPeerRequest
     \<Rightarrow> (JoinPeerResponse option \<times> join_error option) \<times> 'w"

record ('w, 'c) Joiner =
  localRaftAddr :: string
  localNodeID :: string
  voter :: bool
  peerJoiner :: "('w, 'c) PeerJoiner"

definition NewJoiner :: "('w, 'c) PeerJoiner \<Rightarrow> string \<Rightarrow> string \<Rightarrow> bool \<Rightarrow> ('w, 'c) Joiner" where
  "NewJoiner pj nodeID raftAddr v =
     \<lparr>localRaftAddr = raftAddr, localNodeID = nodeID, voter = v, peerJoiner = pj\<rparr>"

text \<open>
  The \<^verbatim>\<open>select\<close> between \<^verbatim>\<open>ctx.Done()\<close> and \<^verbatim>\<open>time.After(d)\<close>, \<open>d\<close> in milliseconds: the
  world decides which case fires. \<open>Some e\<close> is the case \<^verbatim>\<open>ctx.Done()\<close> with \<open>e\<close> the value of
  \<^verbatim>\<open>ctx.Err()\<close>; \<open>None\<close> is the timer.
\<close>

type_synonym ('w, 'c) Select = "'w \<Rightarrow> 'c Context \<Rightarrow> nat \<Rightarrow> ctx_error option \<times> 'w"

text \<open>
  What one invocation does outside itself, in order: a \<^verbatim>\<open>Join\<close> sent to a candidate
  (node name, address, and what came back), a \<^verbatim>\<open>Join\<close> sent to the leader a response named
  (address and the error that came back), and a backoff \<^verbatim>\<open>select\<close> (duration in
  milliseconds and the case that fired).
\<close>

datatype event =
    Attempt string string "JoinPeerResponse option" "join_error option"
  | Follow string "join_error option"
  | Backoff nat "ctx_error option"

text \<open>
  The result of \<^verbatim>\<open>Do\<close>: the two returned values, with the events of the invocation, the
  final value of the local slice \<^verbatim>\<open>errors\<close> and the world it leaves behind.
\<close>

record 'w outcome =
  leader :: string
  err :: "do_error option"
  trace :: "event list"
  recorded :: "string list"
  world :: "'w"

definition emit :: "event list \<Rightarrow> 'w outcome \<Rightarrow> 'w outcome" where
  "emit evs out = out\<lparr>trace := evs @ trace out\<rparr>"

text \<open>
  One turn of the loop body up to the \<^verbatim>\<open>select\<close> (lines 78 to 104): either the function
  returns an address, or the slice \<^verbatim>\<open>errors\<close> has grown by one entry.
\<close>

datatype 'w turn = Joined string "event list" 'w | Failed "string list" "event list" 'w

definition attempt ::
  "('w, 'c) Joiner \<Rightarrow> 'c Context \<Rightarrow> JoinPeerRequest \<Rightarrow> string \<Rightarrow> string \<Rightarrow> string list \<Rightarrow> 'w
     \<Rightarrow> 'w turn" where
  "attempt j ctx req name addr errors w =
     (case peerJoiner j w ctx addr req of
        ((resp, None), w1) \<Rightarrow> Joined addr [Attempt name addr resp None] w1
      | ((resp, Some e), w1) \<Rightarrow>
          (let ldr = GetLeader resp in
           if code e = ResourceExhausted \<and> ldr \<noteq> [] then
             (case peerJoiner j w1 ctx ldr req of
                ((resp2, None), w2) \<Rightarrow>
                  Joined ldr [Attempt name addr resp (Some e), Follow ldr None] w2
              | ((resp2, Some e2), w2) \<Rightarrow>
                  Failed (errors @ [leader_failure ldr e2])
                    [Attempt name addr resp (Some e), Follow ldr (Some e2)] w2)
           else
             Failed (errors @ [candidate_failure name addr e])
               [Attempt name addr resp (Some e)] w1))"

text \<open>The two terminal errors after the loop (lines 117 to 121).\<close>

definition exhausted :: "(string \<times> string) list \<Rightarrow> string list \<Rightarrow> do_error" where
  "exhausted remoteNodes errors =
     (if length errors > 0 then
        Errorf (''could not join a cluster from '' @ fmt_map remoteNodes @ '': ''
                  @ strings_Join errors ''; '')
      else Errorf (''could not join a cluster from '' @ fmt_map remoteNodes))"

text \<open>
  The loop \<^verbatim>\<open>for name, addr := range remoteNodes\<close> with the code after it. The fifth
  argument is the whole map (the terminal error prints it), the sixth the entries still to
  come.
\<close>

fun range_loop ::
  "('w, 'c) Joiner \<Rightarrow> ('w, 'c) Select \<Rightarrow> 'c Context \<Rightarrow> JoinPeerRequest \<Rightarrow> (string \<times> string) list
     \<Rightarrow> (string \<times> string) list \<Rightarrow> string list \<Rightarrow> 'w \<Rightarrow> 'w outcome" where
  "range_loop j sel ctx req remoteNodes [] errors w =
     \<lparr>leader = [], err = Some (exhausted remoteNodes errors), trace = [],
      recorded = errors, world = w\<rparr>"
| "range_loop j sel ctx req remoteNodes ((name, addr) # rest) errors w =
     (if name = localNodeID j then range_loop j sel ctx req remoteNodes rest errors w
      else
        (case attempt j ctx req name addr errors w of
           Joined a evs w1 \<Rightarrow>
             \<lparr>leader = a, err = None, trace = evs, recorded = errors, world = w1\<rparr>
         | Failed errors' evs w1 \<Rightarrow>
             (case sel w1 ctx 50 of
                (Some ce, w2) \<Rightarrow>
                  \<lparr>leader = [], err = Some (CtxErr ce), trace = evs @ [Backoff 50 (Some ce)],
                   recorded = errors', world = w2\<rparr>
              | (None, w2) \<Rightarrow>
                  emit (evs @ [Backoff 50 None])
                    (range_loop j sel ctx req remoteNodes rest errors' w2))))"

text \<open>
  \<^verbatim>\<open>Joiner.Do\<close>. \<open>sentryEnabled\<close> is the value of \<^verbatim>\<open>entSentry.Enabled()\<close>; when it holds,
  the context used from then on is the one of the span \<^verbatim>\<open>raft.bootstrap.join\<close>. What the
  span itself reports to Sentry and what the logger prints are outside the model.
\<close>

definition Do ::
  "('w, 'c) Joiner \<Rightarrow> ('w, 'c) Select \<Rightarrow> bool \<Rightarrow> 'c Context \<Rightarrow> (string \<times> string) list \<Rightarrow> 'w
     \<Rightarrow> 'w outcome" where
  "Do j sel sentryEnabled ctx remoteNodes w =
     (let ctx' = (if sentryEnabled then SpanContext ctx ''raft.bootstrap.join'' else ctx);
          req = \<lparr>Id = localNodeID j, Address = localRaftAddr j, Voter = voter j\<rparr>
      in range_loop j sel ctx' req remoteNodes remoteNodes [] w)"

subsection \<open>Resolving the remote nodes\<close>

text \<open>\<^verbatim>\<open>%d\<close> of an \<^verbatim>\<open>int\<close>: decimal digits, with a minus sign below zero.\<close>

function fmt_nat :: "nat \<Rightarrow> string" where
  "fmt_nat n =
     (if n < 10 then [''0123456789'' ! n]
      else fmt_nat (n div 10) @ [''0123456789'' ! (n mod 10)])"
  by pat_completeness auto
termination
  by (relation "measure (\<lambda>n. n)") auto

declare fmt_nat.simps [simp del]

definition fmt_d :: "int \<Rightarrow> string" where
  "fmt_d i = (if i < 0 then ''-'' @ fmt_nat (nat (- i)) else fmt_nat (nat i))"

text \<open>
  The reader double of \<^verbatim>\<open>service_test.go\<close>: a map from node name to address and the local
  node's name. Indexing a Go map at an absent key gives the zero value.
\<close>

record mockClusterStateReader =
  addresses :: "(string \<times> string) list"
  localName :: string

definition NodeAddress :: "mockClusterStateReader \<Rightarrow> string \<Rightarrow> string" where
  "NodeAddress m ident = (case map_of (addresses m) ident of None \<Rightarrow> [] | Some addr \<Rightarrow> addr)"

definition NodeHostname :: "mockClusterStateReader \<Rightarrow> string \<Rightarrow> string \<times> bool" where
  "NodeHostname m nodeName =
     (case map_of (addresses m) nodeName of None \<Rightarrow> ([], False) | Some addr \<Rightarrow> (addr, True))"

definition LocalName :: "mockClusterStateReader \<Rightarrow> string" where
  "LocalName m = localName m"

fun members_loop :: "int \<Rightarrow> (string \<times> string) list \<Rightarrow> (string \<times> string) list" where
  "members_loop raftPort [] = []"
| "members_loop raftPort ((name, addr) # rest) =
     (if addr \<noteq> [] then (name, addr @ '':'' @ fmt_d raftPort) # members_loop raftPort rest
      else members_loop raftPort rest)"

definition AllClusterMembers :: "mockClusterStateReader \<Rightarrow> int \<Rightarrow> (string \<times> string) list" where
  "AllClusterMembers m raftPort = members_loop raftPort (addresses m)"

text \<open>\<^verbatim>\<open>portByNode[id]\<close> on a \<^verbatim>\<open>map[string]int\<close>.\<close>

definition port_of :: "(string \<times> int) list \<Rightarrow> string \<Rightarrow> int" where
  "port_of portByNode ident = (case map_of portByNode ident of None \<Rightarrow> 0 | Some p \<Rightarrow> p)"

text \<open>
  Modelled from the spec: the function \<^verbatim>\<open>bootstrap.ResolveRemoteNodes\<close> is not among the
  sources; only its tests are. For each node id known to the reader, resolve its address;
  if the address is non-empty, combine it with the node's configured port and include it;
  if it is empty, omit the node. The node ids known to the reader double are the keys of
  its address map.
\<close>

fun resolve_loop ::
  "mockClusterStateReader \<Rightarrow> (string \<times> int) list \<Rightarrow> string list \<Rightarrow> (string \<times> string) list" where
  "resolve_loop reader portByNode [] = []"
| "resolve_loop reader portByNode (ident # rest) =
     (let addr = NodeAddress reader ident in
      if addr \<noteq> [] then
        (ident, addr @ '':'' @ fmt_d (port_of portByNode ident)) # resolve_loop reader portByNode rest
      else resolve_loop reader portByNode rest)"

definition ResolveRemoteNodes ::
  "mockClusterStateReader \<Rightarrow> (string \<times> int) list \<Rightarrow> (string \<times> string) list" where
  "ResolveRemoteNodes reader portByNode =
     resolve_loop reader portByNode (map fst (addresses reader))"

text \<open>The reader of \<^verbatim>\<open>TestResolveRemoteNodesWithUnresolvableNodes\<close> and its port map.\<close>

definition three_nodes :: mockClusterStateReader where
  "three_nodes =
     \<lparr>addresses = [(''node1'', ''172.18.0.4''), (''node2'', []), (''node3'', ''172.18.0.6'')],
      localName = ''node1''\<rparr>"

definition three_ports :: "(string \<times> int) list" where
  "three_ports = [(''node1'', 8300), (''node2'', 8300), (''node3'', 8300)]"

subsection \<open>Reading the events of a run\<close>

text \<open>A \<^verbatim>\<open>Join\<close> that returned a nil error.\<close>

fun succeeded :: "event \<Rightarrow> bool" where
  "succeeded (Attempt name addr resp r) = (r = None)"
| "succeeded (Follow ldr r) = (r = None)"
| "succeeded (Backoff d c) = False"

text \<open>A backoff \<^verbatim>\<open>select\<close> that took the case \<^verbatim>\<open>ctx.Done()\<close>.\<close>

fun cancelled :: "event \<Rightarrow> bool" where
  "cancelled (Backoff d c) = (c \<noteq> None)"
| "cancelled (Attempt name addr resp r) = False"
| "cancelled (Follow ldr r) = False"

text \<open>The text of \<^verbatim>\<open>err.Error()\<close> for an error returned by \<^verbatim>\<open>Do\<close>.\<close>

fun Error :: "do_error \<Rightarrow> string" where
  "Error (Errorf m) = m"
| "Error (CtxErr ContextCanceled) = ''context canceled''"
| "Error (CtxErr ContextDeadlineExceeded) = ''context deadline exceeded''"

subsection \<open>Peers and contexts for concrete runs\<close>

text \<open>
  The scenarios of the specification, with short addresses. The world of these peers is the
  number of \<^verbatim>\<open>Join\<close> calls received so far.
\<close>

definition not_leader :: join_error where
  "not_leader = \<lparr>code = ResourceExhausted, text_of = ''not leader''\<rparr>"

definition unavailable :: join_error where
  "unavailable = \<lparr>code = 14, text_of = ''unavailable''\<rparr>"

text \<open>The node at \<^verbatim>\<open>b:1\<close> leads and accepts; every other node refuses and names it.\<close>

definition cluster_led_by_b :: "(nat, unit) PeerJoiner" where
  "cluster_led_by_b w ctx addr req =
     (if addr = ''b:1'' then ((Some \<lparr>Leader = ''b:1''\<rparr>, None), Suc w)
      else ((Some \<lparr>Leader = ''b:1''\<rparr>, Some not_leader), Suc w))"

text \<open>No node answers: every call fails with no response.\<close>

definition all_down :: "(nat, unit) PeerJoiner" where
  "all_down w ctx addr req = ((None, Some unavailable), Suc w)"

text \<open>Every node refuses and names \<^verbatim>\<open>s:1\<close> as the leader, which refuses too.\<close>

definition stale_view :: "(nat, unit) PeerJoiner" where
  "stale_view w ctx addr req = ((Some \<lparr>Leader = ''s:1''\<rparr>, Some not_leader), Suc w)"

text \<open>A peer joiner that accepts exactly the calls whose context carries a span.\<close>

definition traced_only :: "(nat, unit) PeerJoiner" where
  "traced_only w ctx addr req =
     (case ctx of Ctx c \<Rightarrow> ((None, Some unavailable), Suc w)
      | SpanContext c op \<Rightarrow> ((Some \<lparr>Leader = addr\<rparr>, None), Suc w))"

definition timer_fires :: "(nat, unit) Select" where
  "timer_fires w ctx d = (None, w)"

definition ctx_cancelled :: "(nat, unit) Select" where
  "ctx_cancelled w ctx d = (Some ContextCanceled, w)"

text \<open>The local node \<^verbatim>\<open>self\<close> at \<^verbatim>\<open>s:1\<close>, joining as a voter.\<close>

definition self_joiner :: "(nat, unit) PeerJoiner \<Rightarrow> (nat, unit) Joiner" where
  "self_joiner pj = NewJoiner pj ''self'' ''s:1'' True"

text \<open>The request that joiner builds.\<close>

definition self_request :: JoinPeerRequest where
  "self_request = \<lparr>Id = ''self'', Address = ''s:1'', Voter = True\<rparr>"

subsection \<open>The shape of a run\<close>

lemma attempt_Joined:
  assumes "attempt j ctx req n a errs w = Joined l evs w1"
  shows "(\<exists>resp. evs = [Attempt n a resp None] \<and> l = a) \<or>
         (\<exists>resp e. evs = [Attempt n a resp (Some e), Follow l None] \<and> code e = ResourceExhausted
            \<and> GetLeader resp = l \<and> l \<noteq> [])"
  using assms unfolding attempt_def
  by (auto simp: Let_def split: prod.splits option.splits if_splits)

lemma attempt_Failed:
  assumes "attempt j ctx req n a errs w = Failed errs' evs w1"
  shows "(\<exists>resp e. evs = [Attempt n a resp (Some e)]
            \<and> \<not> (code e = ResourceExhausted \<and> GetLeader resp \<noteq> [])
            \<and> errs' = errs @ [candidate_failure n a e]) \<or>
         (\<exists>resp e e2. evs = [Attempt n a resp (Some e), Follow (GetLeader resp) (Some e2)]
            \<and> code e = ResourceExhausted \<and> GetLeader resp \<noteq> []
            \<and> errs' = errs @ [leader_failure (GetLeader resp) e2])"
  using assms unfolding attempt_def
  by (auto simp: Let_def split: prod.splits option.splits if_splits)

lemma trace_emit [simp]: "trace (emit evs out) = evs @ trace out"
  and leader_emit [simp]: "leader (emit evs out) = leader out"
  and err_emit [simp]: "err (emit evs out) = err out"
  and recorded_emit [simp]: "recorded (emit evs out) = recorded out"
  and world_emit [simp]: "world (emit evs out) = world out"
  by (simp_all add: emit_def)

lemma range_loop_induct [case_names exhausted skipped joined cancelled continued]:
  fixes P :: "(string \<times> string) list \<Rightarrow> string list \<Rightarrow> 'w \<Rightarrow> bool"
    and j :: "('w, 'c) Joiner"
  assumes "\<And>errs w. P [] errs w"
    and "\<And>n a rest errs w. n = localNodeID j \<Longrightarrow> P rest errs w \<Longrightarrow> P ((n, a) # rest) errs w"
    and "\<And>n a rest errs w l evs w1.
           n \<noteq> localNodeID j \<Longrightarrow> attempt j ctx req n a errs w = Joined l evs w1 \<Longrightarrow>
           P ((n, a) # rest) errs w"
    and "\<And>n a rest errs w errs' evs w1 ce w2.
           n \<noteq> localNodeID j \<Longrightarrow> attempt j ctx req n a errs w = Failed errs' evs w1 \<Longrightarrow>
           sel w1 ctx 50 = (Some ce, w2) \<Longrightarrow> P ((n, a) # rest) errs w"
    and "\<And>n a rest errs w errs' evs w1 w2.
           n \<noteq> localNodeID j \<Longrightarrow> attempt j ctx req n a errs w = Failed errs' evs w1 \<Longrightarrow>
           sel w1 ctx 50 = (None, w2) \<Longrightarrow> P rest errs' w2 \<Longrightarrow> P ((n, a) # rest) errs w"
  shows "P rest errs w"
proof -
  have "\<forall>errs w. P rest errs w"
  proof (induction rest)
    case Nil
    show ?case by (simp add: assms(1))
  next
    case (Cons x rest)
    obtain n a where x: "x = (n, a)" by (cases x)
    show ?case
    proof (intro allI)
      fix errs w
      show "P (x # rest) errs w"
      proof (cases "n = localNodeID j")
        case True
        then show ?thesis unfolding x using Cons.IH by (simp add: assms(2))
      next
        case False
        show ?thesis
        proof (cases "attempt j ctx req n a errs w")
          case (Joined l evs w1)
          with False show ?thesis unfolding x by (rule assms(3))
        next
          case (Failed errs' evs w1)
          obtain c w2 where s: "sel w1 ctx 50 = (c, w2)" by (cases "sel w1 ctx 50")
          show ?thesis
          proof (cases c)
            case None
            with s have "sel w1 ctx 50 = (None, w2)" by simp
            with False Failed show ?thesis unfolding x
              by (rule assms(5)) (simp add: Cons.IH)
          next
            case (Some ce)
            with s have "sel w1 ctx 50 = (Some ce, w2)" by simp
            with False Failed show ?thesis unfolding x by (rule assms(4))
          qed
        qed
      qed
    qed
  qed
  then show ?thesis by simp
qed

lemma loop_success:
  "trace (range_loop j sel ctx req all rest errs w) = tr @ Attempt n a resp None # tr' \<Longrightarrow>
   tr' = [] \<and> leader (range_loop j sel ctx req all rest errs w) = a
     \<and> err (range_loop j sel ctx req all rest errs w) = None"
proof (induction rest errs w arbitrary: tr rule: range_loop_induct[where j=j and ctx=ctx and req=req and sel=sel])
  case (exhausted errs w)
  then show ?case by simp
next
  case (skipped n a rest errs w)
  then show ?case by simp
next
  case (joined n' a' rest errs w l evs w1)
  from attempt_Joined[OF joined(2)] joined(1,2,3) show ?case
    by (auto simp: append_eq_Cons_conv Cons_eq_append_conv)
next
  case (cancelled n' a' rest errs w errs' evs w1 ce w2)
  from attempt_Failed[OF cancelled(2)] cancelled show ?case
    by (auto simp: append_eq_Cons_conv Cons_eq_append_conv)
next
  case (continued n' a' rest errs w errs' evs w1 w2)
  from attempt_Failed[OF continued(2)] continued(1,2,3,5)
  have "\<exists>tr2. trace (range_loop j sel ctx req all rest errs' w2) = tr2 @ Attempt n a resp None # tr'"
    by (auto simp: append_eq_Cons_conv Cons_eq_append_conv)
  then obtain tr2 where "trace (range_loop j sel ctx req all rest errs' w2) = tr2 @ Attempt n a resp None # tr'" ..
  from continued(4)[OF this] continued(1,2,3) show ?case by simp
qed

lemma loop_cancelled:
  "trace (range_loop j sel ctx req all rest errs w) = tr @ Backoff d (Some ce) # tr' \<Longrightarrow>
   tr' = [] \<and> leader (range_loop j sel ctx req all rest errs w) = []
     \<and> err (range_loop j sel ctx req all rest errs w) = Some (CtxErr ce)"
proof (induction rest errs w arbitrary: tr rule: range_loop_induct[where j=j and ctx=ctx and req=req and sel=sel])
  case (exhausted errs w)
  then show ?case by simp
next
  case (skipped n a rest errs w)
  then show ?case by simp
next
  case (joined n' a' rest errs w l evs w1)
  from attempt_Joined[OF joined(2)] joined(1,2,3) show ?case
    by (auto simp: append_eq_Cons_conv Cons_eq_append_conv)
next
  case (cancelled n' a' rest errs w errs' evs w1 ce' w2)
  from attempt_Failed[OF cancelled(2)] cancelled show ?case
    by (auto simp: append_eq_Cons_conv Cons_eq_append_conv)
next
  case (continued n' a' rest errs w errs' evs w1 w2)
  from attempt_Failed[OF continued(2)] continued(1,2,3,5)
  have "\<exists>tr2. trace (range_loop j sel ctx req all rest errs' w2) = tr2 @ Backoff d (Some ce) # tr'"
    by (auto simp: append_eq_Cons_conv Cons_eq_append_conv)
  then obtain tr2 where "trace (range_loop j sel ctx req all rest errs' w2) = tr2 @ Backoff d (Some ce) # tr'" ..
  from continued(4)[OF this] continued(1,2,3) show ?case by simp
qed

lemma loop_attempts:
  "Attempt n a resp r \<in> set (trace (range_loop j sel ctx req all rest errs w)) \<Longrightarrow>
   n \<noteq> localNodeID j \<and> (n, a) \<in> set rest"
proof (induction rest errs w rule: range_loop_induct[where j=j and ctx=ctx and req=req and sel=sel])
  case (exhausted errs w)
  then show ?case by simp
next
  case (skipped n a rest errs w)
  then show ?case by simp
next
  case (joined n' a' rest errs w l evs w1)
  from attempt_Joined[OF joined(2)] joined(1,2,3) show ?case by auto
next
  case (cancelled n' a' rest errs w errs' evs w1 ce' w2)
  from attempt_Failed[OF cancelled(2)] cancelled show ?case by auto
next
  case (continued n' a' rest errs w errs' evs w1 w2)
  from attempt_Failed[OF continued(2)] continued show ?case by auto
qed

lemma loop_no_candidates:
  "\<forall>(n, a) \<in> set rest. n = localNodeID j \<Longrightarrow>
   range_loop j sel ctx req all rest errs w =
     \<lparr>leader = [], err = Some (exhausted all errs), trace = [], recorded = errs, world = w\<rparr>"
  by (induction rest) auto


lemma loop_recorded_mono:
  "set errs \<subseteq> set (recorded (range_loop j sel ctx req all rest errs w))"
proof (induction rest errs w rule: range_loop_induct[where j=j and ctx=ctx and req=req and sel=sel])
  case (exhausted errs w)
  then show ?case by simp
next
  case (skipped n a rest errs w)
  then show ?case by simp
next
  case (joined n a rest errs w l evs w1)
  then show ?case by simp
next
  case (cancelled n a rest errs w errs' evs w1 ce w2)
  from attempt_Failed[OF cancelled(2)] cancelled show ?case by auto
next
  case (continued n a rest errs w errs' evs w1 w2)
  from attempt_Failed[OF continued(2)] continued show ?case by auto
qed

lemma loop_backoff_after_failure:
  "trace (range_loop j sel ctx req all rest errs w) = tr @ Attempt n a resp (Some e) # tr' \<Longrightarrow>
   (\<exists>l. tr' = [Follow l None]) \<or> (\<exists>c tr2. tr' = Backoff 50 c # tr2)
     \<or> (\<exists>l e2 c tr2. tr' = Follow l (Some e2) # Backoff 50 c # tr2)"
proof (induction rest errs w arbitrary: tr rule: range_loop_induct[where j=j and ctx=ctx and req=req and sel=sel])
  case (exhausted errs w)
  then show ?case by simp
next
  case (skipped n a rest errs w)
  then show ?case by simp
next
  case (joined n' a' rest errs w l evs w1)
  from attempt_Joined[OF joined(2)] joined(1,2,3) show ?case
    by (auto simp: append_eq_Cons_conv Cons_eq_append_conv)
next
  case (cancelled n' a' rest errs w errs' evs w1 ce' w2)
  from attempt_Failed[OF cancelled(2)] cancelled show ?case
    by (auto simp: append_eq_Cons_conv Cons_eq_append_conv)
next
  case (continued n' a' rest errs w errs' evs w1 w2)
  show ?case
  proof (cases tr)
    case Nil
    with attempt_Failed[OF continued(2)] continued(1,2,3,5) show ?thesis by auto
  next
    case (Cons ev tr1)
    with attempt_Failed[OF continued(2)] continued(1,2,3,5)
    have "\<exists>tr2. trace (range_loop j sel ctx req all rest errs' w2) = tr2 @ Attempt n a resp (Some e) # tr'"
      by (auto simp: append_eq_Cons_conv Cons_eq_append_conv)
    then obtain tr2 where
      "trace (range_loop j sel ctx req all rest errs' w2) = tr2 @ Attempt n a resp (Some e) # tr'" ..
    from continued(4)[OF this] show ?thesis .
  qed
qed

lemma loop_exhausted:
  "\<forall>ev \<in> set (trace (range_loop j sel ctx req all rest errs w)). \<not> succeeded ev \<and> \<not> cancelled ev \<Longrightarrow>
   leader (range_loop j sel ctx req all rest errs w) = []
     \<and> err (range_loop j sel ctx req all rest errs w)
         = Some (exhausted all (recorded (range_loop j sel ctx req all rest errs w)))"
proof (induction rest errs w rule: range_loop_induct[where j=j and ctx=ctx and req=req and sel=sel])
  case (exhausted errs w)
  then show ?case by simp
next
  case (skipped n a rest errs w)
  then show ?case by simp
next
  case (joined n a rest errs w l evs w1)
  from attempt_Joined[OF joined(2)] joined(1,2,3) show ?case by auto
next
  case (cancelled n a rest errs w errs' evs w1 ce w2)
  then show ?case by simp
next
  case (continued n a rest errs w errs' evs w1 w2)
  then show ?case by simp
qed

lemma loop_follow_recorded:
  "Follow l (Some e2) \<in> set (trace (range_loop j sel ctx req all rest errs w)) \<Longrightarrow>
   leader_failure l e2 \<in> set (recorded (range_loop j sel ctx req all rest errs w))"
proof (induction rest errs w rule: range_loop_induct[where j=j and ctx=ctx and req=req and sel=sel])
  case (exhausted errs w)
  then show ?case by simp
next
  case (skipped n a rest errs w)
  then show ?case by simp
next
  case (joined n a rest errs w l' evs w1)
  from attempt_Joined[OF joined(2)] joined(1,2,3) show ?case by auto
next
  case (cancelled n a rest errs w errs' evs w1 ce w2)
  from attempt_Failed[OF cancelled(2)] cancelled show ?case by auto
next
  case (continued n a rest errs w errs' evs w1 w2)
  have m: "set errs' \<subseteq> set (recorded (range_loop j sel ctx req all rest errs' w2))"
    by (rule loop_recorded_mono)
  from attempt_Failed[OF continued(2)] continued m show ?case by auto
qed

lemma loop_candidate_recorded:
  "Attempt n a resp (Some e) \<in> set (trace (range_loop j sel ctx req all rest errs w)) \<Longrightarrow>
   \<not> (code e = ResourceExhausted \<and> GetLeader resp \<noteq> []) \<Longrightarrow>
   candidate_failure n a e \<in> set (recorded (range_loop j sel ctx req all rest errs w))"
proof (induction rest errs w rule: range_loop_induct[where j=j and ctx=ctx and req=req and sel=sel])
  case (exhausted errs w)
  then show ?case by simp
next
  case (skipped n a rest errs w)
  then show ?case by simp
next
  case (joined n' a' rest errs w l' evs w1)
  from attempt_Joined[OF joined(2)] joined(1,2,3,4) show ?case by auto
next
  case (cancelled n' a' rest errs w errs' evs w1 ce w2)
  from attempt_Failed[OF cancelled(2)] cancelled show ?case by auto
next
  case (continued n' a' rest errs w errs' evs w1 w2)
  have m: "set errs' \<subseteq> set (recorded (range_loop j sel ctx req all rest errs' w2))"
    by (rule loop_recorded_mono)
  from attempt_Failed[OF continued(2)] continued m show ?case by auto
qed

lemma sublist_strings_Join: "s \<in> set xs \<Longrightarrow> sublist s (strings_Join xs sep)"
proof (induction xs sep rule: strings_Join.induct)
  case (1 sep)
  then show ?case by simp
next
  case (2 x sep)
  then show ?case by simp
next
  case (3 x y ys sep)
  show ?case
  proof (cases "s = x")
    case True
    then show ?thesis by (simp add: sublist_append_rightI)
  next
    case False
    with 3 have "sublist s (strings_Join (y # ys) sep)" by simp
    then have "sublist s ((x @ sep) @ strings_Join (y # ys) sep)"
      by (simp only: sublist_append) simp
    then show ?thesis by simp
  qed
qed

lemma fmt_map_mentions:
  assumes "(n, a) \<in> set m"
  shows "sublist n (fmt_map m)" and "sublist a (fmt_map m)"
proof -
  let ?f = "\<lambda>(k, v). k @ '':'' @ (v :: string)"
  from assms have "?f (n, a) \<in> set (map ?f (sort_key fst m))" by (simp only: set_map set_sort) (rule imageI)
  then have "sublist (n @ '':'' @ a) (strings_Join (map ?f (sort_key fst m)) '' '')"
    using sublist_strings_Join by fastforce
  then have e: "sublist (n @ '':'' @ a) (fmt_map m)"
    unfolding fmt_map_def by (rule sublist_order.order_trans) (rule sublist_appendI)
  have "sublist n (n @ '':'' @ a)" by (rule sublist_append_rightI)
  then show "sublist n (fmt_map m)" using e by (rule sublist_order.order_trans)
  have "sublist a ((n @ '':'') @ a)" by (rule sublist_append_leftI)
  then have "sublist a (n @ '':'' @ a)" by simp
  then show "sublist a (fmt_map m)" using e by (rule sublist_order.order_trans)
qed

lemma exhausted_Errorf: "\<exists>m. exhausted all errs = Errorf m"
  by (cases "errs = []") (simp_all add: exhausted_def)

lemma exhausted_mentions:
  assumes "exhausted all errs = Errorf m"
  shows "(n, a) \<in> set all \<Longrightarrow> sublist n m \<and> sublist a m"
    and "s \<in> set errs \<Longrightarrow> sublist s m"
proof -
  have f: "sublist (fmt_map all) m"
  proof (cases "errs = []")
    case True
    with assms have "m = ''could not join a cluster from '' @ fmt_map all"
      by (simp add: exhausted_def)
    then show ?thesis by (simp only: sublist_append_leftI)
  next
    case False
    with assms have "m = ''could not join a cluster from '' @ fmt_map all
                           @ ('': '' @ strings_Join errs ''; '')"
      by (simp add: exhausted_def)
    then show ?thesis by (simp only: sublist_appendI)
  qed
  show "sublist n m \<and> sublist a m" if "(n, a) \<in> set all"
    using fmt_map_mentions[OF that] f sublist_order.order_trans by blast
  show "sublist s m" if "s \<in> set errs"
  proof -
    from that have "errs \<noteq> []" by auto
    with assms have "m = (''could not join a cluster from '' @ fmt_map all @ '': '') @ strings_Join errs ''; ''"
      by (simp add: exhausted_def)
    moreover have "sublist (strings_Join errs ''; '')
       ((''could not join a cluster from '' @ fmt_map all @ '': '') @ strings_Join errs ''; '')"
      by (rule sublist_append_leftI)
    ultimately show ?thesis
      using sublist_strings_Join[OF that, of "''; ''"] sublist_order.order_trans by metis
  qed
qed

lemma loop_span_insensitive:
  assumes "\<And>w c a r. peerJoiner j w (SpanContext ctx op) a r = peerJoiner j w ctx a r"
    and "\<And>w d. sel w (SpanContext ctx op) d = sel w ctx d"
  shows "range_loop j sel (SpanContext ctx op) req all rest errs w
           = range_loop j sel ctx req all rest errs w"
proof (induction rest arbitrary: errs w)
  case Nil
  show ?case by simp
next
  case (Cons x rest)
  have a: "attempt j (SpanContext ctx op) req n a errs w = attempt j ctx req n a errs w" for n a
    by (simp add: attempt_def assms(1) Let_def split: prod.splits option.splits)
  show ?case
    by (cases x) (simp add: a assms(2) Cons.IH split: turn.splits prod.splits option.splits)
qed

subsection \<open>Properties of \<^verbatim>\<open>Joiner.Do\<close>\<close>

text \<open>
  C1. Whenever a candidate's \<^verbatim>\<open>Join\<close> returns no error, that call is the last thing
  the invocation does: \<^verbatim>\<open>Do\<close> returns the candidate's address and a nil error, and no
  later candidate receives a \<^verbatim>\<open>Join\<close>.
\<close>

theorem Do_success_short_circuit:
  assumes "trace (Do j sel sentryEnabled ctx remoteNodes w) = tr @ Attempt name addr resp None # tr'"
  shows "tr' = [] \<and> leader (Do j sel sentryEnabled ctx remoteNodes w) = addr
           \<and> err (Do j sel sentryEnabled ctx remoteNodes w) = None"
  using assms unfolding Do_def Let_def by (rule loop_success)

theorem Do_success_short_circuit_witness:
  "trace (Do (self_joiner cluster_led_by_b) timer_fires False (Ctx ())
            [(''self'', ''s:1''), (''peerB'', ''b:1''), (''peerC'', ''c:1'')] 0)
     = [] @ Attempt ''peerB'' ''b:1'' (Some \<lparr>Leader = ''b:1''\<rparr>) None # []
   \<and> leader (Do (self_joiner cluster_led_by_b) timer_fires False (Ctx ())
            [(''self'', ''s:1''), (''peerB'', ''b:1''), (''peerC'', ''c:1'')] 0) = ''b:1''
   \<and> err (Do (self_joiner cluster_led_by_b) timer_fires False (Ctx ())
            [(''self'', ''s:1''), (''peerB'', ''b:1''), (''peerC'', ''c:1'')] 0) = None"
proof -
  have t: "trace (Do (self_joiner cluster_led_by_b) timer_fires False (Ctx ())
            [(''self'', ''s:1''), (''peerB'', ''b:1''), (''peerC'', ''c:1'')] 0)
     = [] @ Attempt ''peerB'' ''b:1'' (Some \<lparr>Leader = ''b:1''\<rparr>) None # []"
    by (simp add: Do_def Let_def self_joiner_def NewJoiner_def attempt_def cluster_led_by_b_def)
  from Do_success_short_circuit [OF t] t show ?thesis by simp
qed

text \<open>
  C2. At the turn of a candidate whose \<^verbatim>\<open>Join\<close> fails with the resource-exhausted code
  and whose response names a leader, the next call is a \<^verbatim>\<open>Join\<close> to that leader. If it
  succeeds, the leader's address is returned with a nil error. If it fails, the failure is
  appended to \<^verbatim>\<open>errors\<close> under the tag \<^verbatim>\<open>leader(...)\<close>, stays recorded to the end, and after
  the backoff the loop goes on with the remaining candidates.
\<close>

theorem leader_follow_turn:
  assumes "name \<noteq> localNodeID j"
    and "peerJoiner j w ctx addr req = ((resp, Some e), w1)"
    and "code e = ResourceExhausted"
    and "GetLeader resp \<noteq> []"
    and "peerJoiner j w1 ctx (GetLeader resp) req = ((resp2, r2), w2)"
  shows "range_loop j sel ctx req remoteNodes ((name, addr) # rest) errors w =
     (case r2 of
        None \<Rightarrow>
          \<lparr>leader = GetLeader resp, err = None,
           trace = [Attempt name addr resp (Some e), Follow (GetLeader resp) None],
           recorded = errors, world = w2\<rparr>
      | Some e2 \<Rightarrow>
          (case sel w2 ctx 50 of
             (Some ce, w3) \<Rightarrow>
               \<lparr>leader = [], err = Some (CtxErr ce),
                trace = [Attempt name addr resp (Some e), Follow (GetLeader resp) (Some e2),
                         Backoff 50 (Some ce)],
                recorded = errors @ [leader_failure (GetLeader resp) e2], world = w3\<rparr>
           | (None, w3) \<Rightarrow>
               emit [Attempt name addr resp (Some e), Follow (GetLeader resp) (Some e2),
                     Backoff 50 None]
                 (range_loop j sel ctx req remoteNodes rest
                    (errors @ [leader_failure (GetLeader resp) e2]) w3)))
   \<and> set (case r2 of None \<Rightarrow> [] | Some e2 \<Rightarrow> [''leader('' @ GetLeader resp @ ''): '' @ text_of e2])
       \<subseteq> set (recorded (range_loop j sel ctx req remoteNodes ((name, addr) # rest) errors w))"
proof -
  have eq: "range_loop j sel ctx req remoteNodes ((name, addr) # rest) errors w =
     (case r2 of
        None \<Rightarrow>
          \<lparr>leader = GetLeader resp, err = None,
           trace = [Attempt name addr resp (Some e), Follow (GetLeader resp) None],
           recorded = errors, world = w2\<rparr>
      | Some e2 \<Rightarrow>
          (case sel w2 ctx 50 of
             (Some ce, w3) \<Rightarrow>
               \<lparr>leader = [], err = Some (CtxErr ce),
                trace = [Attempt name addr resp (Some e), Follow (GetLeader resp) (Some e2),
                         Backoff 50 (Some ce)],
                recorded = errors @ [leader_failure (GetLeader resp) e2], world = w3\<rparr>
           | (None, w3) \<Rightarrow>
               emit [Attempt name addr resp (Some e), Follow (GetLeader resp) (Some e2),
                     Backoff 50 None]
                 (range_loop j sel ctx req remoteNodes rest
                    (errors @ [leader_failure (GetLeader resp) e2]) w3)))"
    using assms by (simp add: attempt_def Let_def split: option.splits prod.splits)
  have "set (case r2 of None \<Rightarrow> [] | Some e2 \<Rightarrow> [''leader('' @ GetLeader resp @ ''): '' @ text_of e2])
       \<subseteq> set (recorded (range_loop j sel ctx req remoteNodes ((name, addr) # rest) errors w))"
  proof (cases r2)
    case None
    then show ?thesis by simp
  next
    case (Some e2)
    obtain c w3 where s: "sel w2 ctx 50 = (c, w3)" by (cases "sel w2 ctx 50")
    show ?thesis
    proof (cases c)
      case None
      have "set (errors @ [leader_failure (GetLeader resp) e2])
              \<subseteq> set (recorded (range_loop j sel ctx req remoteNodes rest
                    (errors @ [leader_failure (GetLeader resp) e2]) w3))"
        by (rule loop_recorded_mono)
      with eq Some s None show ?thesis by (simp add: leader_failure_def)
    next
      case (Some ce)
      with eq \<open>r2 = Some e2\<close> s show ?thesis by (simp add: leader_failure_def)
    qed
  qed
  with eq show ?thesis by blast
qed

theorem leader_follow_turn_witness:
  "range_loop (self_joiner stale_view) timer_fires (Ctx ()) self_request [(''peerA'', ''a:1''), (''peerB'', ''b:1'')]
      [(''peerA'', ''a:1''), (''peerB'', ''b:1'')] [] 0 =
     emit [Attempt ''peerA'' ''a:1'' (Some \<lparr>Leader = ''s:1''\<rparr>) (Some not_leader),
           Follow ''s:1'' (Some not_leader), Backoff 50 None]
       (range_loop (self_joiner stale_view) timer_fires (Ctx ()) self_request
          [(''peerA'', ''a:1''), (''peerB'', ''b:1'')] [(''peerB'', ''b:1'')] [''leader(s:1): not leader''] 2)
   \<and> ''leader(s:1): not leader'' \<in> set (recorded (range_loop (self_joiner stale_view) timer_fires
          (Ctx ()) self_request [(''peerA'', ''a:1''), (''peerB'', ''b:1'')]
          [(''peerA'', ''a:1''), (''peerB'', ''b:1'')] [] 0))
   \<and> leader (range_loop (self_joiner cluster_led_by_b) timer_fires (Ctx ()) self_request
          [(''peerA'', ''a:1''), (''peerB'', ''b:1'')] [(''peerA'', ''a:1''), (''peerB'', ''b:1'')] [] 0)
       = ''b:1''
   \<and> err (range_loop (self_joiner cluster_led_by_b) timer_fires (Ctx ()) self_request
          [(''peerA'', ''a:1''), (''peerB'', ''b:1'')] [(''peerA'', ''a:1''), (''peerB'', ''b:1'')] [] 0)
       = None"
proof -
  have n: "''peerA'' \<noteq> localNodeID (self_joiner pj)" for pj :: "(nat, unit) PeerJoiner"
    by (simp add: self_joiner_def NewJoiner_def)
  have p: "peerJoiner (self_joiner pj) = pj" for pj :: "(nat, unit) PeerJoiner"
    by (simp add: self_joiner_def NewJoiner_def)
  have c: "code not_leader = ResourceExhausted" by (simp add: not_leader_def)
  have a1: "peerJoiner (self_joiner stale_view) 0 (Ctx ()) ''a:1'' self_request
              = ((Some \<lparr>Leader = ''s:1''\<rparr>, Some not_leader), 1)"
    by (simp add: p stale_view_def)
  have l1: "GetLeader (Some \<lparr>Leader = ''s:1''\<rparr>) \<noteq> []" by (simp add: GetLeader_def)
  have f1: "peerJoiner (self_joiner stale_view) 1 (Ctx ()) (GetLeader (Some \<lparr>Leader = ''s:1''\<rparr>)) self_request
              = ((Some \<lparr>Leader = ''s:1''\<rparr>, Some not_leader), 2)"
    by (simp add: p stale_view_def)
  have a2: "peerJoiner (self_joiner cluster_led_by_b) 0 (Ctx ()) ''a:1'' self_request
              = ((Some \<lparr>Leader = ''b:1''\<rparr>, Some not_leader), 1)"
    by (simp add: p cluster_led_by_b_def)
  have l2: "GetLeader (Some \<lparr>Leader = ''b:1''\<rparr>) \<noteq> []" by (simp add: GetLeader_def)
  have f2: "peerJoiner (self_joiner cluster_led_by_b) 1 (Ctx ()) (GetLeader (Some \<lparr>Leader = ''b:1''\<rparr>)) self_request
              = ((Some \<lparr>Leader = ''b:1''\<rparr>, None), 2)"
    by (simp add: p cluster_led_by_b_def GetLeader_def)
  from leader_follow_turn [OF n a1 c l1 f1, of timer_fires "[(''peerA'', ''a:1''), (''peerB'', ''b:1'')]"
         "[(''peerB'', ''b:1'')]" "[]"]
       leader_follow_turn [OF n a2 c l2 f2, of timer_fires "[(''peerA'', ''a:1''), (''peerB'', ''b:1'')]"
         "[(''peerB'', ''b:1'')]" "[]"]
  show ?thesis
    by (auto simp add: timer_fires_def GetLeader_def not_leader_def leader_failure_def
          simp del: range_loop.simps)
qed

text \<open>
  C3, as the code has it. The entries that \<^verbatim>\<open>Do\<close> skips are those under the local node's
  id: every \<^verbatim>\<open>Join\<close> sent to a candidate goes to the address of an entry under another
  name, hence never to the local address when that address is listed under the local id
  only. The address of a leader-follow call comes from the response and is not compared
  with anything.
\<close>

theorem Do_skips_local_entries:
  assumes "Attempt name addr resp r \<in> set (trace (Do j sel sentryEnabled ctx remoteNodes w))"
  shows "name \<noteq> localNodeID j \<and> (name, addr) \<in> set remoteNodes
           \<and> ((\<forall>(n, a) \<in> set remoteNodes. a = localRaftAddr j \<longrightarrow> n = localNodeID j)
                \<longrightarrow> addr \<noteq> localRaftAddr j)"
proof -
  from assms have "name \<noteq> localNodeID j \<and> (name, addr) \<in> set remoteNodes"
    unfolding Do_def Let_def by (rule loop_attempts)
  then show ?thesis by auto
qed

theorem Do_skips_local_entries_witness:
  "Attempt ''peerA'' ''a:1'' (Some \<lparr>Leader = ''s:1''\<rparr>) (Some not_leader)
     \<in> set (trace (Do (self_joiner stale_view) timer_fires False (Ctx ())
                       [(''self'', ''s:1''), (''peerA'', ''a:1'')] 0))
   \<and> ''peerA'' \<noteq> localNodeID (self_joiner stale_view)
   \<and> ''a:1'' \<noteq> localRaftAddr (self_joiner stale_view)"
proof -
  have t: "Attempt ''peerA'' ''a:1'' (Some \<lparr>Leader = ''s:1''\<rparr>) (Some not_leader)
     \<in> set (trace (Do (self_joiner stale_view) timer_fires False (Ctx ())
                       [(''self'', ''s:1''), (''peerA'', ''a:1'')] 0))"
    by (simp add: Do_def Let_def self_joiner_def NewJoiner_def attempt_def stale_view_def timer_fires_def
          GetLeader_def not_leader_def)
  have h: "\<forall>(n, a) \<in> set [(''self'', ''s:1''), (''peerA'', ''a:1'')].
          a = localRaftAddr (self_joiner stale_view) \<longrightarrow> n = localNodeID (self_joiner stale_view)"
    by (simp add: self_joiner_def NewJoiner_def)
  from Do_skips_local_entries [OF t] t h show ?thesis by blast
qed

text \<open>
  C3 as stated fails: a candidate that refuses with the resource-exhausted code and names
  the local node's own address as the leader makes \<^verbatim>\<open>Do\<close> send a \<^verbatim>\<open>Join\<close> to that address.
\<close>

theorem Do_joins_own_address_counterexample:
  "Follow (localRaftAddr (self_joiner stale_view)) (Some not_leader)
     \<in> set (trace (Do (self_joiner stale_view) timer_fires False (Ctx ())
                       [(''self'', ''s:1''), (''peerA'', ''a:1'')] 0))"
  by (simp add: Do_def Let_def self_joiner_def NewJoiner_def attempt_def stale_view_def timer_fires_def
        GetLeader_def not_leader_def)

text \<open>
  C5. When every entry of \<^verbatim>\<open>remoteNodes\<close> is under the local node's id (the empty map
  included), \<^verbatim>\<open>Do\<close> calls nobody and returns the empty address with the terminal error
  \<^verbatim>\<open>could not join a cluster from ...\<close>.
\<close>

theorem Do_no_candidates:
  assumes "\<forall>(n, a) \<in> set remoteNodes. n = localNodeID j"
  shows "Do j sel sentryEnabled ctx remoteNodes w =
           \<lparr>leader = [],
            err = Some (Errorf (''could not join a cluster from '' @ fmt_map remoteNodes)),
            trace = [], recorded = [], world = w\<rparr>"
  using loop_no_candidates [OF assms, of sel _ _ remoteNodes "[]" w]
  by (simp add: Do_def Let_def exhausted_def)

theorem Do_no_candidates_witness:
  "localNodeID (self_joiner cluster_led_by_b) = ''self''
   \<and> Do (self_joiner cluster_led_by_b) timer_fires False (Ctx ()) [(''self'', ''s:1'')] 0 =
       \<lparr>leader = [],
        err = Some (Errorf (''could not join a cluster from '' @ fmt_map [(''self'', ''s:1'')])),
        trace = [], recorded = [], world = 0\<rparr>
   \<and> Do (self_joiner cluster_led_by_b) timer_fires False (Ctx ()) [] 0 =
       \<lparr>leader = [], err = Some (Errorf (''could not join a cluster from '' @ fmt_map [])),
        trace = [], recorded = [], world = 0\<rparr>"
proof -
  have h: "\<forall>(n, a) \<in> set [(''self'', ''s:1'')]. n = localNodeID (self_joiner cluster_led_by_b)"
    by (simp add: self_joiner_def NewJoiner_def)
  have e: "\<forall>(n, a) \<in> set ([] :: (string \<times> string) list). n = localNodeID (self_joiner cluster_led_by_b)"
    by simp
  have n: "localNodeID (self_joiner cluster_led_by_b) = ''self''"
    by (simp add: self_joiner_def NewJoiner_def)
  from Do_no_candidates [OF h, of timer_fires False "Ctx ()" 0]
       Do_no_candidates [OF e, of timer_fires False "Ctx ()" 0] n
  show ?thesis by blast
qed

text \<open>
  C6. When the backoff \<^verbatim>\<open>select\<close> takes the case \<^verbatim>\<open>ctx.Done()\<close>, that is the last thing
  the invocation does: \<^verbatim>\<open>Do\<close> returns the empty address with \<^verbatim>\<open>ctx.Err()\<close>, which is
  neither of the two errors returned when the candidates are exhausted.
\<close>

theorem Do_cancelled_in_backoff:
  assumes "trace (Do j sel sentryEnabled ctx remoteNodes w) = tr @ Backoff d (Some ce) # tr'"
  shows "tr' = [] \<and> leader (Do j sel sentryEnabled ctx remoteNodes w) = []
           \<and> err (Do j sel sentryEnabled ctx remoteNodes w) = Some (CtxErr ce)
           \<and> err (Do j sel sentryEnabled ctx remoteNodes w) \<noteq> Some (exhausted remoteNodes errors)"
proof -
  from assms have "tr' = [] \<and> leader (Do j sel sentryEnabled ctx remoteNodes w) = []
           \<and> err (Do j sel sentryEnabled ctx remoteNodes w) = Some (CtxErr ce)"
    unfolding Do_def Let_def by (rule loop_cancelled)
  then show ?thesis by (simp add: exhausted_def)
qed

theorem Do_cancelled_in_backoff_witness:
  "trace (Do (self_joiner all_down) ctx_cancelled False (Ctx ())
            [(''peerA'', ''a:1''), (''peerB'', ''b:1'')] 0)
     = [Attempt ''peerA'' ''a:1'' None (Some unavailable)] @ Backoff 50 (Some ContextCanceled) # []
   \<and> leader (Do (self_joiner all_down) ctx_cancelled False (Ctx ())
            [(''peerA'', ''a:1''), (''peerB'', ''b:1'')] 0) = []
   \<and> err (Do (self_joiner all_down) ctx_cancelled False (Ctx ())
            [(''peerA'', ''a:1''), (''peerB'', ''b:1'')] 0) = Some (CtxErr ContextCanceled)"
proof -
  have t: "trace (Do (self_joiner all_down) ctx_cancelled False (Ctx ())
            [(''peerA'', ''a:1''), (''peerB'', ''b:1'')] 0)
     = [Attempt ''peerA'' ''a:1'' None (Some unavailable)] @ Backoff 50 (Some ContextCanceled) # []"
    by (simp add: Do_def Let_def self_joiner_def NewJoiner_def attempt_def all_down_def ctx_cancelled_def
          GetLeader_def unavailable_def ResourceExhausted_def)
  from Do_cancelled_in_backoff [OF t] t show ?thesis by simp
qed

text \<open>
  C10. At the turn of a candidate whose \<^verbatim>\<open>Join\<close> returns an error and a nil response, the
  leader reads as empty, no leader-follow call is made, the candidate's failure is appended
  to \<^verbatim>\<open>errors\<close>, and after the backoff the loop goes on with the remaining candidates.
\<close>

theorem nil_response_turn:
  assumes "name \<noteq> localNodeID j"
    and "peerJoiner j w ctx addr req = ((None, Some e), w1)"
  shows "GetLeader None = []
   \<and> range_loop j sel ctx req remoteNodes ((name, addr) # rest) errors w =
     (case sel w1 ctx 50 of
        (Some ce, w2) \<Rightarrow>
          \<lparr>leader = [], err = Some (CtxErr ce),
           trace = [Attempt name addr None (Some e), Backoff 50 (Some ce)],
           recorded = errors @ [name @ ''('' @ addr @ ''): '' @ text_of e], world = w2\<rparr>
      | (None, w2) \<Rightarrow>
          emit [Attempt name addr None (Some e), Backoff 50 None]
            (range_loop j sel ctx req remoteNodes rest
               (errors @ [name @ ''('' @ addr @ ''): '' @ text_of e]) w2))"
  using assms
  by (simp add: attempt_def GetLeader_def candidate_failure_def split: option.splits prod.splits)

theorem nil_response_turn_witness:
  "range_loop (self_joiner all_down) timer_fires (Ctx ()) self_request [(''peerA'', ''a:1'')]
      [(''peerA'', ''a:1'')] [] 0 =
     \<lparr>leader = [], err = Some (exhausted [(''peerA'', ''a:1'')] [''peerA(a:1): unavailable'']),
      trace = [Attempt ''peerA'' ''a:1'' None (Some unavailable), Backoff 50 None],
      recorded = [''peerA(a:1): unavailable''], world = 1\<rparr>"
proof -
  have n: "''peerA'' \<noteq> localNodeID (self_joiner all_down)"
    by (simp add: self_joiner_def NewJoiner_def)
  have a: "peerJoiner (self_joiner all_down) 0 (Ctx ()) ''a:1'' self_request = ((None, Some unavailable), 1)"
    by (simp add: self_joiner_def NewJoiner_def all_down_def)
  from nil_response_turn [OF n a, of timer_fires "[(''peerA'', ''a:1'')]" "[]" "[]"]
  show ?thesis by (simp add: timer_fires_def emit_def unavailable_def)
qed

text \<open>
  C4, as the code has it. When every \<^verbatim>\<open>Join\<close> of the invocation failed and no backoff
  \<^verbatim>\<open>select\<close> took the case \<^verbatim>\<open>ctx.Done()\<close>, \<^verbatim>\<open>Do\<close> returns the empty address and an error
  made by \<^verbatim>\<open>fmt.Errorf\<close> whose text contains the name and address of every candidate
  attempted, every leader address followed, and every entry of \<^verbatim>\<open>errors\<close>: the tagged
  failure of each leader-follow call and of each candidate that was not followed.
\<close>

theorem Do_exhausted_error:
  assumes "\<forall>ev \<in> set (trace (Do j sel sentryEnabled ctx remoteNodes w)).
             \<not> succeeded ev \<and> \<not> cancelled ev"
  shows "leader (Do j sel sentryEnabled ctx remoteNodes w) = []
   \<and> (\<exists>m. err (Do j sel sentryEnabled ctx remoteNodes w) = Some (Errorf m)
        \<and> (\<forall>name addr resp r.
              Attempt name addr resp r \<in> set (trace (Do j sel sentryEnabled ctx remoteNodes w))
              \<longrightarrow> sublist name m \<and> sublist addr m)
        \<and> (\<forall>ldr r. Follow ldr r \<in> set (trace (Do j sel sentryEnabled ctx remoteNodes w))
              \<longrightarrow> sublist ldr m)
        \<and> (\<forall>s \<in> set (recorded (Do j sel sentryEnabled ctx remoteNodes w)). sublist s m)
        \<and> (\<forall>ldr e2. Follow ldr (Some e2) \<in> set (trace (Do j sel sentryEnabled ctx remoteNodes w))
              \<longrightarrow> sublist (leader_failure ldr e2) m)
        \<and> (\<forall>name addr resp e.
              Attempt name addr resp (Some e) \<in> set (trace (Do j sel sentryEnabled ctx remoteNodes w))
              \<longrightarrow> \<not> (code e = ResourceExhausted \<and> GetLeader resp \<noteq> [])
              \<longrightarrow> sublist (candidate_failure name addr e) m))"
proof -
  let ?c = "if sentryEnabled then SpanContext ctx ''raft.bootstrap.join'' else ctx"
  let ?q = "\<lparr>Id = localNodeID j, Address = localRaftAddr j, Voter = voter j\<rparr>"
  let ?out = "range_loop j sel ?c ?q remoteNodes remoteNodes [] w"
  have D: "Do j sel sentryEnabled ctx remoteNodes w = ?out" by (simp add: Do_def Let_def)
  from assms have h: "\<forall>ev \<in> set (trace ?out). \<not> succeeded ev \<and> \<not> cancelled ev"
    by (simp only: D)
  from loop_exhausted[OF h]
  have l: "leader ?out = []" and e: "err ?out = Some (exhausted remoteNodes (recorded ?out))"
    by simp_all
  obtain m where m: "exhausted remoteNodes (recorded ?out) = Errorf m"
    using exhausted_Errorf by blast
  have rec: "sublist s m" if "s \<in> set (recorded ?out)" for s
    using exhausted_mentions(2)[OF m that] .
  have att: "sublist name m \<and> sublist addr m" if "Attempt name addr resp r \<in> set (trace ?out)"
    for name addr resp r
    using loop_attempts[OF that] exhausted_mentions(1)[OF m] by blast
  have lf: "sublist (leader_failure ldr e2) m" if "Follow ldr (Some e2) \<in> set (trace ?out)"
    for ldr e2
    using loop_follow_recorded[OF that] rec by blast
  have fo: "sublist ldr m" if t: "Follow ldr r \<in> set (trace ?out)" for ldr r
  proof (cases r)
    case None
    with h t have False by fastforce
    then show ?thesis ..
  next
    case (Some e2)
    have "sublist ldr (''leader('' @ ldr @ ''): '' @ text_of e2)" by (rule sublist_appendI)
    then have "sublist ldr (leader_failure ldr e2)" by (simp only: leader_failure_def)
    with lf t Some show ?thesis using sublist_order.order_trans by blast
  qed
  have cf: "sublist (candidate_failure name addr e) m"
    if "Attempt name addr resp (Some e) \<in> set (trace ?out)"
      and "\<not> (code e = ResourceExhausted \<and> GetLeader resp \<noteq> [])" for name addr resp e
    using loop_candidate_recorded[OF that] rec by blast
  have "leader ?out = []
   \<and> (\<exists>m. err ?out = Some (Errorf m)
        \<and> (\<forall>name addr resp r. Attempt name addr resp r \<in> set (trace ?out)
              \<longrightarrow> sublist name m \<and> sublist addr m)
        \<and> (\<forall>ldr r. Follow ldr r \<in> set (trace ?out) \<longrightarrow> sublist ldr m)
        \<and> (\<forall>s \<in> set (recorded ?out). sublist s m)
        \<and> (\<forall>ldr e2. Follow ldr (Some e2) \<in> set (trace ?out)
              \<longrightarrow> sublist (leader_failure ldr e2) m)
        \<and> (\<forall>name addr resp e. Attempt name addr resp (Some e) \<in> set (trace ?out)
              \<longrightarrow> \<not> (code e = ResourceExhausted \<and> GetLeader resp \<noteq> [])
              \<longrightarrow> sublist (candidate_failure name addr e) m))"
  proof (intro conjI exI[of _ m] allI impI ballI)
    show "leader ?out = []" by (rule l)
    show "err ?out = Some (Errorf m)" using e m by simp
    show "sublist name m" if "Attempt name addr resp r \<in> set (trace ?out)" for name addr resp r
      using att[OF that] by simp
    show "sublist addr m" if "Attempt name addr resp r \<in> set (trace ?out)" for name addr resp r
      using att[OF that] by simp
    show "sublist ldr m" if "Follow ldr r \<in> set (trace ?out)" for ldr r
      using fo[OF that] .
    show "sublist s m" if "s \<in> set (recorded ?out)" for s
      using rec[OF that] .
    show "sublist (leader_failure ldr e2) m" if "Follow ldr (Some e2) \<in> set (trace ?out)" for ldr e2
      using lf[OF that] .
    show "sublist (candidate_failure name addr e) m"
      if "Attempt name addr resp (Some e) \<in> set (trace ?out)"
        and "\<not> (code e = ResourceExhausted \<and> GetLeader resp \<noteq> [])" for name addr resp e
      using cf[OF that] .
  qed
  then show ?thesis by (simp only: D)
qed

theorem Do_exhausted_error_witness:
  "trace (Do (self_joiner all_down) timer_fires False (Ctx ())
            [(''peerA'', ''a:1''), (''peerB'', ''b:1'')] 0)
     = [Attempt ''peerA'' ''a:1'' None (Some unavailable), Backoff 50 None,
        Attempt ''peerB'' ''b:1'' None (Some unavailable), Backoff 50 None]
   \<and> leader (Do (self_joiner all_down) timer_fires False (Ctx ())
                [(''peerA'', ''a:1''), (''peerB'', ''b:1'')] 0) = []
   \<and> (\<exists>m. err (Do (self_joiner all_down) timer_fires False (Ctx ())
                  [(''peerA'', ''a:1''), (''peerB'', ''b:1'')] 0) = Some (Errorf m)
        \<and> sublist ''peerA'' m \<and> sublist ''a:1'' m \<and> sublist ''peerB'' m \<and> sublist ''b:1'' m
        \<and> sublist ''peerA(a:1): unavailable'' m \<and> sublist ''peerB(b:1): unavailable'' m)"
proof -
  let ?out = "Do (self_joiner all_down) timer_fires False (Ctx ())
                [(''peerA'', ''a:1''), (''peerB'', ''b:1'')] 0"
  have t: "trace ?out = [Attempt ''peerA'' ''a:1'' None (Some unavailable), Backoff 50 None,
                         Attempt ''peerB'' ''b:1'' None (Some unavailable), Backoff 50 None]"
    by (simp add: Do_def Let_def self_joiner_def NewJoiner_def attempt_def all_down_def
          timer_fires_def GetLeader_def)
  have r: "recorded ?out = [''peerA(a:1): unavailable'', ''peerB(b:1): unavailable'']"
    by (simp add: Do_def Let_def self_joiner_def NewJoiner_def attempt_def all_down_def
          timer_fires_def GetLeader_def candidate_failure_def unavailable_def)
  have h: "\<forall>ev \<in> set (trace ?out). \<not> succeeded ev \<and> \<not> cancelled ev"
    by (simp add: t)
  from Do_exhausted_error [OF h] have l: "leader ?out = []" by (rule conjunct1)
  from Do_exhausted_error [OF h] obtain m where
    e: "err ?out = Some (Errorf m)"
    and a': "\<forall>name addr resp r. Attempt name addr resp r \<in> set (trace ?out)
              \<longrightarrow> sublist name m \<and> sublist addr m"
    and s': "\<forall>s \<in> set (recorded ?out). sublist s m"
    by (elim conjE exE)
  have a: "sublist name m \<and> sublist addr m"
    if "Attempt name addr resp r \<in> set (trace ?out)" for name addr resp r
    using a' that by blast
  have s: "sublist s m" if "s \<in> set (recorded ?out)" for s
    using s' that by blast
  have "sublist ''peerA'' m \<and> sublist ''a:1'' m"
    by (rule a [of _ _ None "Some unavailable"]) (simp add: t)
  moreover have "sublist ''peerB'' m \<and> sublist ''b:1'' m"
    by (rule a [of _ _ None "Some unavailable"]) (simp add: t)
  moreover have "sublist ''peerA(a:1): unavailable'' m" by (rule s) (simp add: r)
  moreover have "sublist ''peerB(b:1): unavailable'' m" by (rule s) (simp add: r)
  ultimately show ?thesis using t l e by blast
qed

text \<open>
  C4 as stated fails: the single candidate is attempted and fails, the context is done
  during the \<^verbatim>\<open>select\<close> that follows, and \<^verbatim>\<open>Do\<close> returns \<^verbatim>\<open>ctx.Err()\<close>, whose text names
  no node.
\<close>

theorem Do_exhausted_error_counterexample:
  "trace (Do (self_joiner all_down) ctx_cancelled False (Ctx ()) [(''peerA'', ''a:1'')] 0)
     = [Attempt ''peerA'' ''a:1'' None (Some unavailable), Backoff 50 (Some ContextCanceled)]
   \<and> err (Do (self_joiner all_down) ctx_cancelled False (Ctx ()) [(''peerA'', ''a:1'')] 0)
       = Some (CtxErr ContextCanceled)
   \<and> \<not> sublist ''peerA'' (Error (CtxErr ContextCanceled))"
  by (simp add: Do_def Let_def self_joiner_def NewJoiner_def attempt_def all_down_def
        ctx_cancelled_def GetLeader_def sublist_Cons_right)

text \<open>
  C7, as the code has it. The backoff \<^verbatim>\<open>select\<close> of 50 milliseconds closes every turn that
  did not return an address, the turn of the last candidate included: after a failed
  \<^verbatim>\<open>Join\<close> to a candidate comes the backoff, or the leader-follow call and then, unless that
  call succeeded, the backoff.
\<close>

theorem Do_backoff_after_failed_attempt:
  assumes "trace (Do j sel sentryEnabled ctx remoteNodes w)
             = tr @ Attempt name addr resp (Some e) # tr'"
  shows "(\<exists>ldr. tr' = [Follow ldr None]) \<or> (\<exists>c tr2. tr' = Backoff 50 c # tr2)
           \<or> (\<exists>ldr e2 c tr2. tr' = Follow ldr (Some e2) # Backoff 50 c # tr2)"
  using assms unfolding Do_def Let_def by (rule loop_backoff_after_failure)

theorem Do_backoff_after_failed_attempt_witness:
  "trace (Do (self_joiner stale_view) timer_fires False (Ctx ()) [(''peerA'', ''a:1'')] 0)
     = [] @ Attempt ''peerA'' ''a:1'' (Some \<lparr>Leader = ''s:1''\<rparr>) (Some not_leader)
          # [Follow ''s:1'' (Some not_leader), Backoff 50 None]
   \<and> (\<exists>ldr e2 c tr2. [Follow ''s:1'' (Some not_leader), Backoff 50 None]
          = Follow ldr (Some e2) # Backoff 50 c # tr2)"
proof -
  have t: "trace (Do (self_joiner stale_view) timer_fires False (Ctx ()) [(''peerA'', ''a:1'')] 0)
     = [] @ Attempt ''peerA'' ''a:1'' (Some \<lparr>Leader = ''s:1''\<rparr>) (Some not_leader)
          # [Follow ''s:1'' (Some not_leader), Backoff 50 None]"
    by (simp add: Do_def Let_def self_joiner_def NewJoiner_def attempt_def stale_view_def
          timer_fires_def GetLeader_def not_leader_def)
  from Do_backoff_after_failed_attempt [OF t] t show ?thesis by simp
qed

text \<open>
  C7 as stated fails: with a single candidate that fails, the backoff \<^verbatim>\<open>select\<close> still
  runs after it, before the terminal error is returned.
\<close>

theorem Do_backoff_after_last_counterexample:
  "trace (Do (self_joiner all_down) timer_fires False (Ctx ()) [(''peerA'', ''a:1'')] 0)
     = [Attempt ''peerA'' ''a:1'' None (Some unavailable), Backoff 50 None]
   \<and> err (Do (self_joiner all_down) timer_fires False (Ctx ()) [(''peerA'', ''a:1'')] 0)
       = Some (exhausted [(''peerA'', ''a:1'')] [''peerA(a:1): unavailable''])"
  by (simp add: Do_def Let_def self_joiner_def NewJoiner_def attempt_def all_down_def
        timer_fires_def GetLeader_def candidate_failure_def unavailable_def)

text \<open>
  C9, as the code has it. When the span is enabled, \<^verbatim>\<open>Do\<close> hands the span's context to
  every \<^verbatim>\<open>Join\<close> and to the backoff \<^verbatim>\<open>select\<close>. For a peer joiner and a context whose
  behaviour does not depend on the span a context carries, the whole outcome, and so the
  returned address and error, is the same with the span as without it.
\<close>

theorem Do_span_insensitive:
  assumes "\<forall>w c op a r. peerJoiner j w (SpanContext c op) a r = peerJoiner j w c a r"
    and "\<forall>w c op d. sel w (SpanContext c op) d = sel w c d"
  shows "Do j sel True ctx remoteNodes w = Do j sel False ctx remoteNodes w"
  using assms by (simp add: Do_def Let_def loop_span_insensitive)

theorem Do_span_insensitive_witness:
  "(\<forall>w c op a r. peerJoiner (self_joiner cluster_led_by_b) w (SpanContext c op) a r
        = peerJoiner (self_joiner cluster_led_by_b) w c a r)
   \<and> (\<forall>w c op d. timer_fires w (SpanContext c op) d = timer_fires w c d)
   \<and> Do (self_joiner cluster_led_by_b) timer_fires True (Ctx ())
        [(''peerA'', ''a:1''), (''peerB'', ''b:1'')] 0
     = Do (self_joiner cluster_led_by_b) timer_fires False (Ctx ())
        [(''peerA'', ''a:1''), (''peerB'', ''b:1'')] 0
   \<and> leader (Do (self_joiner cluster_led_by_b) timer_fires False (Ctx ())
        [(''peerA'', ''a:1''), (''peerB'', ''b:1'')] 0) = ''b:1''"
proof -
  have p: "\<forall>w c op a r. peerJoiner (self_joiner cluster_led_by_b) w (SpanContext c op) a r
        = peerJoiner (self_joiner cluster_led_by_b) w c a r"
    by (simp add: self_joiner_def NewJoiner_def cluster_led_by_b_def)
  have s: "\<forall>w c op d. timer_fires w (SpanContext c op) d = timer_fires w c d"
    by (simp add: timer_fires_def)
  have l: "leader (Do (self_joiner cluster_led_by_b) timer_fires False (Ctx ())
        [(''peerA'', ''a:1''), (''peerB'', ''b:1'')] 0) = ''b:1''"
    by (simp add: Do_def Let_def self_joiner_def NewJoiner_def attempt_def cluster_led_by_b_def
          GetLeader_def not_leader_def)
  from Do_span_insensitive [OF p s, of "Ctx ()" "[(''peerA'', ''a:1''), (''peerB'', ''b:1'')]" 0] p s l
  show ?thesis by blast
qed

text \<open>
  C9 as stated fails for a peer joiner that looks at the context it is given: one that
  accepts a \<^verbatim>\<open>Join\<close> only under a context carrying a span makes \<^verbatim>\<open>Do\<close> succeed with the
  span and fail without it.
\<close>

theorem Do_span_counterexample:
  "leader (Do (self_joiner traced_only) timer_fires True (Ctx ()) [(''peerA'', ''a:1'')] 0) = ''a:1''
   \<and> err (Do (self_joiner traced_only) timer_fires True (Ctx ()) [(''peerA'', ''a:1'')] 0) = None
   \<and> leader (Do (self_joiner traced_only) timer_fires False (Ctx ()) [(''peerA'', ''a:1'')] 0) = []
   \<and> err (Do (self_joiner traced_only) timer_fires False (Ctx ()) [(''peerA'', ''a:1'')] 0)
       = Some (exhausted [(''peerA'', ''a:1'')] [''peerA(a:1): unavailable''])"
  by (simp add: Do_def Let_def self_joiner_def NewJoiner_def attempt_def traced_only_def
        timer_fires_def GetLeader_def candidate_failure_def unavailable_def)

subsection \<open>Properties of \<^verbatim>\<open>ResolveRemoteNodes\<close>\<close>

lemma resolve_loop_keys:
  "map fst (resolve_loop reader ports ids) = filter (\<lambda>i. NodeAddress reader i \<noteq> []) ids"
  by (induction ids) (simp_all add: Let_def)

lemma resolve_loop_entries:
  "(i, ra) \<in> set (resolve_loop reader ports ids) \<Longrightarrow>
   ra = NodeAddress reader i @ '':'' @ fmt_d (port_of ports i)"
  by (induction ids) (auto simp: Let_def split: if_splits)

text \<open>
  With one port for all members, the resolved map is what the reader double itself reports
  as \<^verbatim>\<open>AllClusterMembers\<close> for that port.
\<close>

lemma resolve_loop_members:
  assumes "distinct (map fst (addresses reader))"
    and "set xs \<subseteq> set (addresses reader)"
    and "\<forall>(i, a) \<in> set xs. port_of ports i = p"
  shows "resolve_loop reader ports (map fst xs) = members_loop p xs"
  using assms(2,3)
proof (induction xs)
  case Nil
  show ?case by simp
next
  case (Cons x xs)
  obtain n a where x: "x = (n, a)" by (cases x)
  with Cons.prems(1) have "(n, a) \<in> set (addresses reader)" by simp
  with assms(1) have "map_of (addresses reader) n = Some a" by simp
  then have "NodeAddress reader n = a" by (simp add: NodeAddress_def)
  with Cons x show ?case by simp
qed

lemma ResolveRemoteNodes_uniform_port:
  assumes "distinct (map fst (addresses reader))"
    and "\<forall>(i, a) \<in> set (addresses reader). port_of portByNode i = p"
  shows "ResolveRemoteNodes reader portByNode = AllClusterMembers reader p"
  unfolding ResolveRemoteNodes_def AllClusterMembers_def
  using assms(1) _ assms(2) by (rule resolve_loop_members) simp

text \<open>
  C8. The resolved map has exactly one entry for each member whose address resolves
  non-empty and none for any other id; each entry is the member's address, a colon and the
  decimal port configured for it; the size of the result is the number of resolvable
  members, and a reader without members gives the empty map.
\<close>

theorem ResolveRemoteNodes_exact:
  assumes "distinct (map fst (addresses reader))"
  shows "distinct (map fst (ResolveRemoteNodes reader portByNode))
   \<and> set (map fst (ResolveRemoteNodes reader portByNode))
       = {i \<in> set (map fst (addresses reader)). NodeAddress reader i \<noteq> []}
   \<and> (\<forall>(i, ra) \<in> set (ResolveRemoteNodes reader portByNode).
         ra = NodeAddress reader i @ '':'' @ fmt_d (port_of portByNode i))
   \<and> (\<forall>i p. map_of portByNode i = Some p \<longrightarrow> NodeAddress reader i \<noteq> []
         \<longrightarrow> i \<in> set (map fst (addresses reader))
         \<longrightarrow> map_of (ResolveRemoteNodes reader portByNode) i
               = Some (NodeAddress reader i @ '':'' @ fmt_d p))
   \<and> length (ResolveRemoteNodes reader portByNode)
       = card {i \<in> set (map fst (addresses reader)). NodeAddress reader i \<noteq> []}
   \<and> (addresses reader = [] \<longrightarrow> ResolveRemoteNodes reader portByNode = [])"
proof -
  let ?R = "ResolveRemoteNodes reader portByNode"
  let ?S = "{i \<in> set (map fst (addresses reader)). NodeAddress reader i \<noteq> []}"
  have k: "map fst ?R = filter (\<lambda>i. NodeAddress reader i \<noteq> []) (map fst (addresses reader))"
    unfolding ResolveRemoteNodes_def by (rule resolve_loop_keys)
  have d: "distinct (map fst ?R)" unfolding k using assms by (rule distinct_filter)
  have s: "set (map fst ?R) = ?S" unfolding k by auto
  have e: "ra = NodeAddress reader i @ '':'' @ fmt_d (port_of portByNode i)"
    if "(i, ra) \<in> set ?R" for i ra
    using that unfolding ResolveRemoteNodes_def by (rule resolve_loop_entries)
  have m: "map_of ?R i = Some (NodeAddress reader i @ '':'' @ fmt_d p)"
    if p: "map_of portByNode i = Some p" and a: "NodeAddress reader i \<noteq> []"
      and i: "i \<in> set (map fst (addresses reader))" for i p
  proof -
    from a i s have "i \<in> set (map fst ?R)" by blast
    then obtain ra where ra: "(i, ra) \<in> set ?R" by auto
    from e[OF ra] p have "ra = NodeAddress reader i @ '':'' @ fmt_d p" by (simp add: port_of_def)
    with ra d show ?thesis by simp
  qed
  have "length ?R = length (map fst ?R)" by simp
  also have "\<dots> = card (set (map fst ?R))" using d by (simp only: distinct_card)
  finally have c: "length ?R = card ?S" by (simp only: s)
  have n: "addresses reader = [] \<longrightarrow> ?R = []" by (simp add: ResolveRemoteNodes_def)
  from d s e m c n show ?thesis by blast
qed

theorem ResolveRemoteNodes_exact_witness:
  "distinct (map fst (addresses three_nodes))
   \<and> ResolveRemoteNodes three_nodes three_ports
       = [(''node1'', ''172.18.0.4:8300''), (''node3'', ''172.18.0.6:8300'')]
   \<and> card {i \<in> set (map fst (addresses three_nodes)). NodeAddress three_nodes i \<noteq> []} = 2
   \<and> map_of (ResolveRemoteNodes three_nodes three_ports) ''node3''
       = Some (NodeAddress three_nodes ''node3'' @ '':'' @ fmt_d 8300)"
proof -
  have h: "distinct (map fst (addresses three_nodes))" by (simp add: three_nodes_def)
  have f: "fmt_d 8300 = ''8300''" by (simp add: fmt_d_def fmt_nat.simps)
  have v: "ResolveRemoteNodes three_nodes three_ports
             = [(''node1'', ''172.18.0.4:8300''), (''node3'', ''172.18.0.6:8300'')]"
    by (simp add: ResolveRemoteNodes_def NodeAddress_def port_of_def f three_nodes_def
          three_ports_def)
  have p: "map_of three_ports ''node3'' = Some 8300" by (simp add: three_ports_def)
  have a: "NodeAddress three_nodes ''node3'' \<noteq> []" by (simp add: NodeAddress_def three_nodes_def)
  have i: "''node3'' \<in> set (map fst (addresses three_nodes))" by (simp add: three_nodes_def)
  from ResolveRemoteNodes_exact [OF h, of three_ports] have
    c: "length (ResolveRemoteNodes three_nodes three_ports)
       = card {i \<in> set (map fst (addresses three_nodes)). NodeAddress three_nodes i \<noteq> []}"
    and m: "\<forall>i p. map_of three_ports i = Some p \<longrightarrow> NodeAddress three_nodes i \<noteq> []
         \<longrightarrow> i \<in> set (map fst (addresses three_nodes))
         \<longrightarrow> map_of (ResolveRemoteNodes three_nodes three_ports) i
               = Some (NodeAddress three_nodes i @ '':'' @ fmt_d p)"
    by blast+
  from c v have "card {i \<in> set (map fst (addresses three_nodes)). NodeAddress three_nodes i \<noteq> []} = 2"
    by simp
  moreover from m p a i have "map_of (ResolveRemoteNodes three_nodes three_ports) ''node3''
       = Some (NodeAddress three_nodes ''node3'' @ '':'' @ fmt_d 8300)"
    by blast
  ultimately show ?thesis using h v by blast
qed

end
